theory Spec2Isabelle
  imports Complex_Main
begin

section \<open>Admission controller: the token bucket\<close>

text \<open>
  The class \<open>TokenBucket\<close> of the rate-limit middleware. A JavaScript number is modelled
  by an exact rational, a reading of \<open>Date.now()\<close> by an integer count of milliseconds
  that every operation receives as an argument. The mutable object becomes a record that
  each method returns updated.
\<close>

record TokenBucket =
  capacity :: rat
  refillRate :: rat
  tokens :: rat
  lastRefill :: int

definition new_TokenBucket :: "rat \<Rightarrow> rat \<Rightarrow> int \<Rightarrow> TokenBucket" where
  "new_TokenBucket cap rate now =
     \<lparr>capacity = cap, refillRate = rate, tokens = cap, lastRefill = now\<rparr>"

definition refill :: "TokenBucket \<Rightarrow> int \<Rightarrow> TokenBucket" where
  "refill b now =
     (let elapsedSeconds = of_int (now - lastRefill b) / 1000;
          tokensToAdd = elapsedSeconds * refillRate b
      in b\<lparr>tokens := min (capacity b) (tokens b + tokensToAdd), lastRefill := now\<rparr>)"

record ConsumeResult =
  allowed :: bool
  retryAfterSeconds :: int

definition tryConsume :: "TokenBucket \<Rightarrow> int \<Rightarrow> TokenBucket \<times> ConsumeResult" where
  "tryConsume b now =
     (let b1 = refill b now
      in if tokens b1 \<ge> 1
         then (b1\<lparr>tokens := tokens b1 - 1\<rparr>, \<lparr>allowed = True, retryAfterSeconds = 0\<rparr>)
         else (let tokensNeeded = 1 - tokens b1;
                   secondsUntilAvailable = \<lceil>tokensNeeded / refillRate b1\<rceil>
               in (b1, \<lparr>allowed = False, retryAfterSeconds = secondsUntilAvailable\<rparr>)))"

definition getTokens :: "TokenBucket \<Rightarrow> int \<Rightarrow> TokenBucket \<times> rat" where
  "getTokens b now = (let b1 = refill b now in (b1, tokens b1))"

text \<open>
  A history of a bucket: the operations performed on it, each with the clock reading it
  took. \<open>run_ops\<close> lists the bucket after each operation, the observation points.
\<close>

datatype bucket_op = Refill int | TryConsume int | GetTokens int

fun op_time :: "bucket_op \<Rightarrow> int" where
  "op_time (Refill t) = t"
| "op_time (TryConsume t) = t"
| "op_time (GetTokens t) = t"

fun apply_op :: "TokenBucket \<Rightarrow> bucket_op \<Rightarrow> TokenBucket" where
  "apply_op b (Refill t) = refill b t"
| "apply_op b (TryConsume t) = fst (tryConsume b t)"
| "apply_op b (GetTokens t) = fst (getTokens b t)"



text \<open>Successive attempts on one bucket, with the result of each.\<close>

fun attempts :: "TokenBucket \<Rightarrow> int list \<Rightarrow> TokenBucket \<times> ConsumeResult list" where
  "attempts b [] = (b, [])"
| "attempts b (t # ts) =
     (let (b1, r) = tryConsume b t; (b2, rs) = attempts b1 ts in (b2, r # rs))"

subsection \<open>The rate-limit middleware\<close>

text \<open>
  \<open>RATE_LIMITS\<close>, the module state (one shared bucket and a map of per-user buckets) and
  \<open>rateLimitMiddleware\<close>. The middleware reads the clock up to five times; the readings
  are passed in as a record. The result says which way the handler left: \<open>NoUser\<close> (no
  user id, the next handler runs unchecked), \<open>GlobalLimited r\<close> and \<open>UserLimited r\<close>
  (the audit event and the counter with scope global or user, and the reply asking to
  wait \<open>r\<close> seconds), \<open>Admitted\<close> (the next handler runs). The model covers the runs in
  which the awaited calls return normally; an exception in one of them reaches the
  \<open>catch\<close>, which runs the next handler and touches no bucket.
\<close>

definition USER_CAPACITY :: rat where "USER_CAPACITY = 30"
definition USER_REFILL_RATE :: rat where "USER_REFILL_RATE = 1 / 2"
definition GLOBAL_CAPACITY :: rat where "GLOBAL_CAPACITY = 100"
definition GLOBAL_REFILL_RATE :: rat where "GLOBAL_REFILL_RATE = 167 / 100"

record RateLimiter =
  globalBucket :: TokenBucket
  userBuckets :: "int \<rightharpoonup> TokenBucket"

definition initial_RateLimiter :: "int \<Rightarrow> RateLimiter" where
  "initial_RateLimiter now =
     \<lparr>globalBucket = new_TokenBucket GLOBAL_CAPACITY GLOBAL_REFILL_RATE now,
      userBuckets = Map.empty\<rparr>"

definition getUserBucket :: "RateLimiter \<Rightarrow> int \<Rightarrow> int \<Rightarrow> RateLimiter \<times> TokenBucket" where
  "getUserBucket st userId now =
     (case userBuckets st userId of
        Some bucket \<Rightarrow> (st, bucket)
      | None \<Rightarrow>
          (let bucket = new_TokenBucket USER_CAPACITY USER_REFILL_RATE now
           in (st\<lparr>userBuckets := (userBuckets st)(userId \<mapsto> bucket)\<rparr>, bucket)))"

record MiddlewareClock =
  now_global :: int
  now_create :: int
  now_user :: int
  now_log_user :: int
  now_log_global :: int

datatype Admission = NoUser | GlobalLimited int | UserLimited int | Admitted

definition rateLimitMiddleware ::
  "RateLimiter \<Rightarrow> int option \<Rightarrow> MiddlewareClock \<Rightarrow> RateLimiter \<times> Admission" where
  "rateLimitMiddleware st userId clk =
     (case userId of
        None \<Rightarrow> (st, NoUser)
      | Some uid \<Rightarrow>
          if uid = 0 then (st, NoUser)
          else
            (let (g1, globalResult) = tryConsume (globalBucket st) (now_global clk);
                 st1 = st\<lparr>globalBucket := g1\<rparr>
             in if \<not> allowed globalResult
                then (st1, GlobalLimited (retryAfterSeconds globalResult))
                else
                  (let (st2, userBucket) = getUserBucket st1 uid (now_create clk);
                       (u1, userResult) = tryConsume userBucket (now_user clk);
                       st3 = st2\<lparr>userBuckets := (userBuckets st2)(uid \<mapsto> u1)\<rparr>
                   in if \<not> allowed userResult
                      then (st3, UserLimited (retryAfterSeconds userResult))
                      else
                        (let (u2, userTokens) = getTokens u1 (now_log_user clk);
                             (g2, globalTokens) =
                                getTokens (globalBucket st3) (now_log_global clk)
                         in (st3\<lparr>userBuckets := (userBuckets st3)(uid \<mapsto> u2),
                                  globalBucket := g2\<rparr>, Admitted)))))"

fun run_middleware ::
  "RateLimiter \<Rightarrow> (int option \<times> MiddlewareClock) list \<Rightarrow> RateLimiter \<times> Admission list" where
  "run_middleware st [] = (st, [])"
| "run_middleware st ((u, clk) # xs) =
     (let (st1, a) = rateLimitMiddleware st u clk; (st2, as) = run_middleware st1 xs
      in (st2, a # as))"

text \<open>
  The state that thirty admitted messages of user 7, all at clock reading 0, leave behind
  when the module was loaded at reading 0 (lemma \<open>drained_state_reachable\<close>).
\<close>

definition drained_state :: RateLimiter where
  "drained_state =
     \<lparr>globalBucket = \<lparr>capacity = 100, refillRate = 167 / 100, tokens = 70, lastRefill = 0\<rparr>,
      userBuckets = [7 \<mapsto> \<lparr>capacity = 30, refillRate = 1 / 2, tokens = 0, lastRefill = 0\<rparr>]\<rparr>"

definition global_empty_state :: RateLimiter where
  "global_empty_state =
     \<lparr>globalBucket = \<lparr>capacity = 100, refillRate = 167 / 100, tokens = 0, lastRefill = 0\<rparr>,
      userBuckets = [7 \<mapsto> \<lparr>capacity = 30, refillRate = 1 / 2, tokens = 30, lastRefill = 0\<rparr>]\<rparr>"

definition all_at :: "int \<Rightarrow> MiddlewareClock" where
  "all_at t = \<lparr>now_global = t, now_create = t, now_user = t, now_log_user = t,
               now_log_global = t\<rparr>"

section \<open>Permission gate: the tool permission service\<close>

text \<open>
  A JavaScript string is the list of its UTF-16 code units. The cache key is the template
  string \<open>`${userId}:${toolName}`\<close>; \<open>number_to_string\<close> renders an integer in decimal
  as JavaScript does for integers of magnitude below \<open>10^21\<close>.
\<close>

type_synonym js_string = "nat list"

fun digits :: "nat \<Rightarrow> js_string" where
  "digits n = (if n < 10 then [48 + n] else digits (n div 10) @ [48 + n mod 10])"

declare digits.simps [simp del]

definition number_to_string :: "int \<Rightarrow> js_string" where
  "number_to_string i = (if i < 0 then 45 # digits (nat (- i)) else digits (nat i))"

definition cacheKey :: "int \<Rightarrow> js_string \<Rightarrow> js_string" where
  "cacheKey userId toolName = number_to_string userId @ [58] @ toolName"

definition CACHE_TTL_MS :: int where "CACHE_TTL_MS = 60000"

text \<open>
  The external store is the table \<open>tool_permissions\<close> of the security migration, unique on
  \<open>(telegram_user_id, tool_name)\<close>: a partial map from that pair to a row. A timestamp
  column holds the clock reading of the write. Every call to the store has one of three
  outcomes: it answers, it answers with an error object, or it throws. A call that does
  not answer is taken to leave the table as it was.
\<close>

record PermissionRow =
  is_allowed :: "bool option"
  granted_at :: int
  granted_by :: "int option"
  revoked_at :: "int option"
  revoked_by :: "int option"
  row_notes :: "js_string option"

datatype store_outcome = Answers | AnswersError | Throws

record PermissionWorld =
  permissionCache :: "js_string \<rightharpoonup> bool"
  cacheTimestamps :: "js_string \<rightharpoonup> int"
  tool_permissions :: "int \<times> js_string \<rightharpoonup> PermissionRow"

text \<open>
  The outcome of an async function: the value its promise resolves to, or a rejection.
\<close>

datatype 'a completion = Returned 'a | Thrown

text \<open>
  The cache test of \<open>checkToolPermission\<close>: an entry is served when the value is defined,
  the timestamp is truthy (defined and not 0) and younger than the TTL.
\<close>

definition cached_decision :: "PermissionWorld \<Rightarrow> js_string \<Rightarrow> int \<Rightarrow> bool option" where
  "cached_decision w key now =
     (case permissionCache w key of
        None \<Rightarrow> None
      | Some cachedValue \<Rightarrow>
          (case cacheTimestamps w key of
             None \<Rightarrow> None
           | Some cachedTime \<Rightarrow>
               if cachedTime \<noteq> 0 \<and> now - cachedTime < CACHE_TTL_MS
               then Some cachedValue else None))"

text \<open>The decision read off the row that \<open>maybeSingle\<close> returns.\<close>

definition row_allows :: "PermissionRow option \<Rightarrow> bool" where
  "row_allows data =
     (case data of
        None \<Rightarrow> False
      | Some row \<Rightarrow> is_allowed row = Some True \<and> revoked_at row = None)"

text \<open>
  The body of the \<open>try\<close> block, then the function with its \<open>catch\<close>. \<open>now1\<close> is the
  clock reading of the cache test, \<open>now2\<close> the one stored with a new cache entry, after
  the store has answered.
\<close>

definition checkToolPermission_try ::
  "PermissionWorld \<Rightarrow> int \<Rightarrow> js_string \<Rightarrow> int \<Rightarrow> store_outcome \<Rightarrow> int
     \<Rightarrow> (PermissionWorld \<times> bool) completion" where
  "checkToolPermission_try w userId toolName now1 query now2 =
     (case cached_decision w (cacheKey userId toolName) now1 of
        Some cachedValue \<Rightarrow> Returned (w, cachedValue)
      | None \<Rightarrow>
          (case query of
             Throws \<Rightarrow> Thrown
           | AnswersError \<Rightarrow> Returned (w, False)
           | Answers \<Rightarrow>
               (let isAllowed = row_allows (tool_permissions w (userId, toolName))
                in Returned
                     (w\<lparr>permissionCache :=
                          (permissionCache w)(cacheKey userId toolName \<mapsto> isAllowed),
                        cacheTimestamps :=
                          (cacheTimestamps w)(cacheKey userId toolName \<mapsto> now2)\<rparr>,
                      isAllowed))))"

definition checkToolPermission ::
  "PermissionWorld \<Rightarrow> int \<Rightarrow> js_string \<Rightarrow> int \<Rightarrow> store_outcome \<Rightarrow> int
     \<Rightarrow> (PermissionWorld \<times> bool) completion" where
  "checkToolPermission w userId toolName now1 query now2 =
     (case checkToolPermission_try w userId toolName now1 query now2 of
        Returned r \<Rightarrow> Returned r
      | Thrown \<Rightarrow> Returned (w, False))"

definition invalidate :: "PermissionWorld \<Rightarrow> js_string \<Rightarrow> PermissionWorld" where
  "invalidate w key =
     w\<lparr>permissionCache := (permissionCache w)(key := None),
       cacheTimestamps := (cacheTimestamps w)(key := None)\<rparr>"






text \<open>
  Sample worlds for user 42 and the tool named \<open>x\<close> (code unit 120): nothing cached and
  nothing stored; a denial cached at reading 2000 over a row that allows; an allowance
  cached at reading 2000 over a row that allows.
\<close>

definition empty_world :: PermissionWorld where
  "empty_world =
     \<lparr>permissionCache = Map.empty, cacheTimestamps = Map.empty,
      tool_permissions = Map.empty\<rparr>"

definition allowed_row :: PermissionRow where
  "allowed_row =
     \<lparr>is_allowed = Some True, granted_at = 1000, granted_by = None, revoked_at = None,
      revoked_by = None, row_notes = None\<rparr>"

definition cached_false_world :: PermissionWorld where
  "cached_false_world =
     \<lparr>permissionCache = [cacheKey 42 [120] \<mapsto> False],
      cacheTimestamps = [cacheKey 42 [120] \<mapsto> 2000],
      tool_permissions = [(42, [120]) \<mapsto> allowed_row]\<rparr>"


section \<open>Observability sink: alert cooldown\<close>

text \<open>
  \<open>MonitoringService.triggerAlert\<close> with the module map \<open>alertCooldowns\<close>. The two effects
  of a fired alert, the \<open>logger.warn\<close> line and the call of \<open>auditLog\<close>, are appended to
  two lists of the state; each entry records the alert type and the clock reading of the
  call that produced it. The payload \<open>data\<close> plays no part in the decision and is left
  out.
\<close>

datatype AuditEventType =
  auth_success | auth_failure | message_received | message_sent | tool_execution
  | tool_timeout | tool_error | rate_limit_exceeded | validation_failure
  | permission_denied | error_event

datatype AuditSeverity = Info | Warning | Error | Critical

record LoggedAlert =
  log_alertType :: string
  log_severity :: AuditSeverity
  log_message :: string
  log_at :: int

record AuditCall =
  eventType :: AuditEventType
  telegramUserId :: "int option"
  audit_alertType :: string
  audit_message :: string
  severity :: AuditSeverity
  audit_at :: int

record Monitoring =
  alertCooldowns :: "string \<rightharpoonup> int"
  logged :: "LoggedAlert list"
  audited :: "AuditCall list"

definition ALERT_COOLDOWN_MS :: int where "ALERT_COOLDOWN_MS = 5 * 60 * 1000"

definition initial_Monitoring :: Monitoring where
  "initial_Monitoring = \<lparr>alertCooldowns = Map.empty, logged = [], audited = []\<rparr>"

text \<open>The test \<open>lastAlert && now - lastAlert < ALERT_COOLDOWN_MS\<close>.\<close>

definition in_cooldown :: "Monitoring \<Rightarrow> string \<Rightarrow> int \<Rightarrow> bool" where
  "in_cooldown st alertType now =
     (case alertCooldowns st alertType of
        None \<Rightarrow> False
      | Some lastAlert \<Rightarrow> lastAlert \<noteq> 0 \<and> now - lastAlert < ALERT_COOLDOWN_MS)"

definition triggerAlert ::
  "Monitoring \<Rightarrow> string \<Rightarrow> AuditSeverity \<Rightarrow> string \<Rightarrow> int \<Rightarrow> Monitoring" where
  "triggerAlert st alertType sev message now =
     (if in_cooldown st alertType now then st
      else st\<lparr>alertCooldowns := (alertCooldowns st)(alertType \<mapsto> now),
              logged := logged st @
                [\<lparr>log_alertType = alertType, log_severity = sev, log_message = message,
                  log_at = now\<rparr>],
              audited := audited st @
                [\<lparr>eventType = error_event, telegramUserId = None,
                  audit_alertType = alertType, audit_message = message, severity = sev,
                  audit_at = now\<rparr>]\<rparr>)"

text \<open>
  Any number of evaluations that find a threshold breached: each is a call of
  \<open>triggerAlert\<close> with its alert type, severity, message and clock reading.
\<close>

type_synonym alert_call = "string \<times> AuditSeverity \<times> string \<times> int"

fun call_now :: "alert_call \<Rightarrow> int" where
  "call_now (alertType, sev, message, now) = now"

fun run_alerts :: "Monitoring \<Rightarrow> alert_call list \<Rightarrow> Monitoring" where
  "run_alerts st [] = st"
| "run_alerts st ((alertType, sev, message, now) # calls) =
     run_alerts (triggerAlert st alertType sev message now) calls"

text \<open>The clock readings of the audit records, and of the log lines, of one alert type.\<close>

definition audited_at :: "string \<Rightarrow> Monitoring \<Rightarrow> int list" where
  "audited_at alertType st =
     map audit_at (filter (\<lambda>a. audit_alertType a = alertType) (audited st))"

definition logged_at :: "string \<Rightarrow> Monitoring \<Rightarrow> int list" where
  "logged_at alertType st =
     map log_at (filter (\<lambda>a. log_alertType a = alertType) (logged st))"

text \<open>How many of the readings fall into the window of one cooldown length from \<open>t\<close>.\<close>

definition in_window :: "int \<Rightarrow> int list \<Rightarrow> nat" where
  "in_window t xs = length (filter (\<lambda>x. t \<le> x \<and> x < t + ALERT_COOLDOWN_MS) xs)"

text \<open>
  The invariant of the alert state: a stored cooldown timestamp is never 0, the audit
  records of one alert type lie at least one cooldown apart and none is later than the
  stored timestamp of its type, every audit record has its log line, and every audit
  record is of type \<open>error\<close>.
\<close>

definition cooldown_inv :: "Monitoring \<Rightarrow> bool" where
  "cooldown_inv st =
     ((\<forall>ty c. alertCooldowns st ty = Some c \<longrightarrow> c \<noteq> 0)
      \<and> (\<forall>ty. sorted_wrt (\<lambda>x y. x + ALERT_COOLDOWN_MS \<le> y) (audited_at ty st))
      \<and> (\<forall>ty. \<forall>x \<in> set (audited_at ty st). \<exists>c. alertCooldowns st ty = Some c \<and> x \<le> c)
      \<and> (\<forall>ty. logged_at ty st = audited_at ty st)
      \<and> (\<forall>a \<in> set (audited st). eventType a = error_event))"

text \<open>
  A sample run: the error-rate breach is found at three evaluations within five
  minutes, the timeout breach once.
\<close>

definition breach_calls :: "alert_call list" where
  "breach_calls =
     [(''high_error_rate'', Critical, ''Error rate is 50.0% (threshold: 10%)'', 1000000),
      (''high_error_rate'', Critical, ''Error rate is 50.0% (threshold: 10%)'', 1060000),
      (''high_tool_timeouts'', Warning, ''6 tool timeouts in the last 5 minutes'', 1060000),
      (''high_error_rate'', Critical, ''Error rate is 40.0% (threshold: 10%)'', 1299999)]"

section \<open>Content gate: the input validation service\<close>

subsection \<open>Regular expressions\<close>

text \<open>
  The fragment of JavaScript regular expressions that the validation patterns are written
  in: character classes, a greedy star over a class, sequence, ordered alternative and
  greedy option. \<open>matches r s\<close> lists the lengths of the prefixes of \<open>s\<close> that \<open>r\<close>
  matches, in the order in which a backtracking matcher tries them, so its head is the
  match the engine reports at that position.
\<close>

definition js :: "string \<Rightarrow> js_string" where
  "js s = map of_char s"

definition is_space :: "nat \<Rightarrow> bool" where
  "is_space c =
     (c \<in> set [9, 10, 11, 12, 13, 32, 160, 5760, 8232, 8233, 8239, 8287, 12288, 65279]
      \<or> (8192 \<le> c \<and> c \<le> 8202))"

definition is_letter :: "nat \<Rightarrow> bool" where
  "is_letter c = ((65 \<le> c \<and> c \<le> 90) \<or> (97 \<le> c \<and> c \<le> 122))"

datatype char_class = OneOf "nat list" | NoneOf "nat list" | Space | Letter

fun in_class :: "char_class \<Rightarrow> nat \<Rightarrow> bool" where
  "in_class (OneOf cs) c = (c \<in> set cs)"
| "in_class (NoneOf cs) c = (c \<notin> set cs)"
| "in_class Space c = is_space c"
| "in_class Letter c = is_letter c"

datatype regex =
  Eps | Cls char_class | StarCls char_class | Seq regex regex | Alt regex regex | Opt regex

text \<open>A greedy star over a class: the longest run first, then each shorter one.\<close>

fun star_lengths :: "char_class \<Rightarrow> js_string \<Rightarrow> nat list" where
  "star_lengths k [] = [0]"
| "star_lengths k (c # cs) =
     (if in_class k c then map Suc (star_lengths k cs) @ [0] else [0])"

fun matches :: "regex \<Rightarrow> js_string \<Rightarrow> nat list" where
  "matches Eps s = [0]"
| "matches (Cls k) s = (case s of [] \<Rightarrow> [] | c # cs \<Rightarrow> if in_class k c then [1] else [])"
| "matches (StarCls k) s = star_lengths k s"
| "matches (Seq r1 r2) s =
     concat (map (\<lambda>n. map (\<lambda>m. n + m) (matches r2 (drop n s))) (matches r1 s))"
| "matches (Alt r1 r2) s = matches r1 s @ matches r2 s"
| "matches (Opt r) s = matches r s @ [0]"

fun seqs :: "regex list \<Rightarrow> regex" where
  "seqs [] = Eps"
| "seqs [r] = r"
| "seqs (r # rs) = Seq r (seqs rs)"

fun alts :: "regex list \<Rightarrow> regex" where
  "alts [] = Cls (OneOf [])"
| "alts [r] = r"
| "alts (r # rs) = Alt r (alts rs)"

definition one_or_more :: "char_class \<Rightarrow> regex" where
  "one_or_more k = Seq (Cls k) (StarCls k)"

definition lit :: "string \<Rightarrow> regex" where
  "lit s = seqs (map (\<lambda>c. Cls (OneOf [of_char c])) s)"

text \<open>A literal under the flag \<open>i\<close>: an ASCII letter stands for both of its cases.\<close>

definition both_cases :: "nat \<Rightarrow> nat list" where
  "both_cases c =
     (if 97 \<le> c \<and> c \<le> 122 then [c, c - 32]
      else if 65 \<le> c \<and> c \<le> 90 then [c, c + 32] else [c])"

definition liti :: "string \<Rightarrow> regex" where
  "liti s = seqs (map (\<lambda>c. Cls (OneOf (both_cases (of_char c)))) s)"

text \<open>
  The search of \<open>RegExp.prototype.exec\<close> from index \<open>i\<close>: the end index of the match at
  the first position where there is one. \<open>search r s p\<close> looks through the suffix \<open>s\<close>
  that starts at index \<open>p\<close>.
\<close>

fun search :: "regex \<Rightarrow> js_string \<Rightarrow> nat \<Rightarrow> nat option" where
  "search r [] p = (case matches r [] of [] \<Rightarrow> None | n # ns \<Rightarrow> Some (p + n))"
| "search r (c # cs) p =
     (case matches r (c # cs) of [] \<Rightarrow> search r cs (Suc p) | n # ns \<Rightarrow> Some (p + n))"

definition regex_exec :: "regex \<Rightarrow> js_string \<Rightarrow> nat \<Rightarrow> nat option" where
  "regex_exec r s i = (if i \<le> length s then search r (drop i s) i else None)"

text \<open>
  \<open>test\<close> on a regular expression without the flag \<open>g\<close> searches from index 0 and keeps
  no state. With the flag \<open>g\<close> it searches from the \<open>lastIndex\<close> of the object and stores
  the end of the match there, or 0 when there is none.
\<close>

definition test :: "regex \<Rightarrow> js_string \<Rightarrow> bool" where
  "test r s = (regex_exec r s 0 \<noteq> None)"

definition test_global :: "regex \<Rightarrow> nat \<Rightarrow> js_string \<Rightarrow> bool \<times> nat" where
  "test_global r lastIndex s =
     (if lastIndex > length s then (False, 0)
      else (case regex_exec r s lastIndex of None \<Rightarrow> (False, 0) | Some e \<Rightarrow> (True, e)))"

text \<open>
  \<open>patterns.some(pattern => pattern.test(s))\<close> over objects with the flag \<open>g\<close>: the
  \<open>lastIndex\<close> values are threaded through, and the patterns after the first hit are not
  touched.
\<close>

fun some_global :: "regex list \<Rightarrow> nat list \<Rightarrow> js_string \<Rightarrow> bool \<times> nat list" where
  "some_global (r # rs) (l # ls) s =
     (let (found, l1) = test_global r l s
      in if found then (True, l1 # ls)
         else (let (f, ls1) = some_global rs ls s in (f, l1 # ls1)))"
| "some_global rs ls s = (False, ls)"

subsection \<open>The patterns and the validator\<close>

definition COMMAND_INJECTION_PATTERNS :: "regex list" where
  "COMMAND_INJECTION_PATTERNS =
     [seqs [Cls (OneOf [96]), StarCls (NoneOf [96]), Cls (OneOf [96])],
      seqs [lit ''$('', StarCls (NoneOf [41]), lit '')''],
      seqs [lit '';'', StarCls Space, Cls Letter],
      seqs [lit ''|'', StarCls Space, Cls Letter],
      seqs [lit ''&&'', StarCls Space, Cls Letter],
      seqs [lit ''||'', StarCls Space, Cls Letter],
      seqs [lit ''>'', StarCls Space, lit ''/'', Cls Letter],
      seqs [lit ''<'', StarCls Space, lit ''/'', Cls Letter]]"

definition PROMPT_INJECTION_PATTERNS :: "regex list" where
  "PROMPT_INJECTION_PATTERNS =
     [seqs [liti ''ignore'', one_or_more Space, alts [liti ''previous'', liti ''all'', liti ''prior''],
            one_or_more Space, liti ''instruction'', Opt (liti ''s'')],
      seqs [liti ''disregard'', one_or_more Space,
            alts [liti ''previous'', liti ''all'', liti ''prior''],
            one_or_more Space, liti ''instruction'', Opt (liti ''s'')],
      seqs [liti ''forget'', one_or_more Space, alts [liti ''previous'', liti ''all'', liti ''prior''],
            one_or_more Space, liti ''instruction'', Opt (liti ''s'')],
      seqs [liti ''new'', one_or_more Space, liti ''instruction'', Opt (liti ''s''), liti '':''],
      seqs [liti ''system'', one_or_more Space, liti ''prompt''],
      seqs [liti ''you'', one_or_more Space, liti ''are'', one_or_more Space, liti ''now''],
      seqs [liti ''your'', one_or_more Space, liti ''new'', one_or_more Space,
            alts [liti ''role'', Seq (liti ''instruction'') (Opt (liti ''s'')), liti ''task'']],
      liti ''[INST]'',
      liti ''[/INST]'',
      liti ''<|im_start|>'',
      liti ''<|im_end|>'']"

definition DANGEROUS_CHARS :: "nat list" where
  "DANGEROUS_CHARS = [0, 0]"

definition MAX_MESSAGE_LENGTH :: int where "MAX_MESSAGE_LENGTH = 4000"

text \<open>The \<open>lastIndex\<close> of the eight command patterns when the module is loaded.\<close>

definition initial_lastIndexes :: "nat list" where
  "initial_lastIndexes = [0, 0, 0, 0, 0, 0, 0, 0]"

definition trim :: "js_string \<Rightarrow> js_string" where
  "trim s = rev (dropWhile is_space (rev (dropWhile is_space s)))"

record ValidationResult =
  isValid :: bool
  sanitized :: js_string
  violations :: "js_string list"

text \<open>
  \<open>validateUserInput\<close>. The only state it reads and writes is the \<open>lastIndex\<close> of the
  command patterns, passed in and returned. No operation of the \<open>try\<close> block throws on a
  string and a number, so the \<open>catch\<close> branch has no counterpart.
\<close>

definition validateUserInput ::
  "nat list \<Rightarrow> js_string \<Rightarrow> int \<Rightarrow> nat list \<times> ValidationResult" where
  "validateUserInput lastIndexes message maxLength =
     (let hasDangerous = list_ex (\<lambda>char. char \<in> set message) DANGEROUS_CHARS;
          violations1 =
            (if hasDangerous then [js ''Contains null bytes or dangerous characters'']
             else []);
          sanitized1 =
            (if hasDangerous
             then foldl (\<lambda>text char. filter (\<lambda>c. c \<noteq> char) text) message DANGEROUS_CHARS
             else message);
          (commandInjectionFound, lastIndexes1) =
            some_global COMMAND_INJECTION_PATTERNS lastIndexes sanitized1;
          violations2 = violations1 @
            (if commandInjectionFound
             then [js ''Contains potential command injection patterns''] else []);
          promptInjectionFound =
            list_ex (\<lambda>pattern. test pattern sanitized1) PROMPT_INJECTION_PATTERNS;
          violations3 = violations2 @
            (if promptInjectionFound
             then [js ''Contains potential prompt injection patterns''] else []);
          tooLong = (int (length sanitized1) > maxLength);
          violations4 = violations3 @
            (if tooLong
             then [js ''Message exceeds maximum length of '' @ number_to_string maxLength
                     @ js '' characters'']
             else []);
          sanitized2 = (if tooLong then take (nat maxLength) sanitized1 else sanitized1);
          sanitized3 = trim sanitized2;
          violations5 = violations4 @
            (if sanitized3 = [] then [js ''Message is empty after sanitization''] else [])
      in (lastIndexes1,
          \<lparr>isValid = (violations5 = []), sanitized = sanitized3,
            violations = violations5\<rparr>))"

text \<open>The message \<open>`rm -rf /`\<close> of the security guide's validation test.\<close>

definition backtick_message :: js_string where
  "backtick_message = [96] @ js ''rm -rf /'' @ [96]"

text \<open>A harmless message with blanks around it.\<close>

definition hello_message :: js_string where
  "hello_message = js '' hello  ''"

section \<open>Properties of the token bucket\<close>

lemma refill_fields [simp]:
  "capacity (refill b t) = capacity b" "refillRate (refill b t) = refillRate b"
  "lastRefill (refill b t) = t"
  by (simp_all add: refill_def Let_def)


lemma apply_op_fields [simp]:
  "capacity (apply_op b x) = capacity b" "refillRate (apply_op b x) = refillRate b"
  "lastRefill (apply_op b x) = op_time x"
  by (cases x; simp add: tryConsume_def getTokens_def Let_def)+






lemma attempts_Cons_proj:
  "fst (attempts b (t # ts)) = fst (attempts (fst (tryConsume b t)) ts)"
  "snd (attempts b (t # ts)) = snd (tryConsume b t) # snd (attempts (fst (tryConsume b t)) ts)"
  by (simp_all add: split_beta)






section \<open>Properties of the rate-limit middleware\<close>

lemma drained_state_reachable:
  "fst (run_middleware (initial_RateLimiter 0) (replicate 30 (Some 7, all_at 0)))
     = drained_state"
  by (simp add: eval_nat_numeral initial_RateLimiter_def new_TokenBucket_def
      USER_CAPACITY_def USER_REFILL_RATE_def GLOBAL_CAPACITY_def GLOBAL_REFILL_RATE_def
      rateLimitMiddleware_def tryConsume_def refill_def getTokens_def getUserBucket_def
      all_at_def drained_state_def Let_def)

text \<open>
  C1 (amended). When the global bucket rejects an attempt, the global bucket is only
  refilled and the per-caller buckets are not touched: nothing is consumed anywhere.
  When the per-caller bucket rejects an attempt, the per-caller bucket is only refilled,
  but the global bucket, checked and debited first, holds one token less than its
  refilled count before the attempt.
\<close>

theorem rejection_token_accounting:
  "(rateLimitMiddleware st (Some uid) clk = (st', GlobalLimited r) \<longrightarrow>
      globalBucket st' = refill (globalBucket st) (now_global clk)
      \<and> userBuckets st' = userBuckets st)
   \<and> (rateLimitMiddleware st (Some uid) clk = (st', UserLimited r) \<longrightarrow>
      tokens (globalBucket st') = tokens (refill (globalBucket st) (now_global clk)) - 1
      \<and> userBuckets st' uid
          = Some (refill (snd (getUserBucket st uid (now_create clk))) (now_user clk)))"
  by (auto simp add: rateLimitMiddleware_def tryConsume_def getTokens_def getUserBucket_def
      Let_def split: if_splits option.splits)

theorem rejection_token_accounting_witness:
  "rateLimitMiddleware global_empty_state (Some 7) (all_at 0) = (global_empty_state, GlobalLimited 1)
   \<and> globalBucket global_empty_state = refill (globalBucket global_empty_state) (now_global (all_at 0))
   \<and> rateLimitMiddleware drained_state (Some 7) (all_at 0)
       = (drained_state\<lparr>globalBucket := (globalBucket drained_state)\<lparr>tokens := 69\<rparr>\<rparr>,
          UserLimited 2)
   \<and> tokens (globalBucket (drained_state\<lparr>globalBucket := (globalBucket drained_state)\<lparr>tokens := 69\<rparr>\<rparr>))
       = tokens (refill (globalBucket drained_state) (now_global (all_at 0))) - 1"
  using rejection_token_accounting [of global_empty_state 7 "all_at 0" global_empty_state 1]
    rejection_token_accounting [of drained_state 7 "all_at 0"
      "drained_state\<lparr>globalBucket := (globalBucket drained_state)\<lparr>tokens := 69\<rparr>\<rparr>" 2]
  by (simp add: rateLimitMiddleware_def tryConsume_def refill_def getTokens_def
      getUserBucket_def all_at_def drained_state_def global_empty_state_def Let_def
      ceiling_eq_iff)

text \<open>
  The claim as stated says that a rejection by the per-caller bucket leaves the global
  count where the refill put it. On the drained state the 31st message of user 7 is
  rejected by the per-caller bucket, and the global count has gone from 70 to 69.
\<close>

theorem user_rejection_counterexample:
  "snd (rateLimitMiddleware drained_state (Some 7) (all_at 0)) = UserLimited 2
   \<and> tokens (refill (globalBucket drained_state) (now_global (all_at 0))) = 70
   \<and> tokens (globalBucket (fst (rateLimitMiddleware drained_state (Some 7) (all_at 0)))) = 69"
  by (simp add: rateLimitMiddleware_def tryConsume_def refill_def getTokens_def
      getUserBucket_def all_at_def drained_state_def Let_def)

section \<open>Properties of the permission gate\<close>

lemma cached_decision_invalidate [simp]: "cached_decision (invalidate w key) key now = None"
  by (simp add: cached_decision_def invalidate_def)

text \<open>
  C2. Whenever \<open>checkToolPermission\<close> puts its query to the store (no servable cache
  entry for the pair) and the query fails, by an error answer or by an exception, the
  call completes normally with \<open>false\<close>: it never returns \<open>true\<close> and never throws.
\<close>

theorem check_fails_closed:
  assumes "query \<noteq> Answers" and "cached_decision w (cacheKey userId toolName) now1 = None"
  shows "\<exists>w'. checkToolPermission w userId toolName now1 query now2 = Returned (w', False)"
  using assms by (cases query) (simp_all add: checkToolPermission_def checkToolPermission_try_def)

theorem check_fails_closed_witness:
  "Throws \<noteq> Answers \<and> cached_decision empty_world (cacheKey 42 [120]) 5000 = None
   \<and> (\<exists>w'. checkToolPermission empty_world 42 [120] 5000 Throws 5001 = Returned (w', False))"
proof -
  have h: "Throws \<noteq> Answers" "cached_decision empty_world (cacheKey 42 [120]) 5000 = None"
    by (simp_all add: cached_decision_def empty_world_def)
  from check_fails_closed [OF h] h show ?thesis by blast
qed

lemma cached_decision_later:
  assumes "cached_decision w key now1 = None" and "now1 \<le> now3"
  shows "cached_decision w key now3 = None"
  using assms by (auto simp add: cached_decision_def split: option.splits if_splits)

text \<open>
  C10. A check whose store query errors or throws returns \<open>false\<close> and leaves the
  world, and with it both cache maps, exactly as it found it. At any later clock reading
  the pair still has no servable cache entry, so the next check queries the store again
  and, when the store answers, returns the store's decision rather than the denial.
\<close>

theorem failed_check_leaves_cache:
  assumes "query \<noteq> Answers" and "cached_decision w (cacheKey userId toolName) now1 = None"
    and "now1 \<le> now3"
  shows "checkToolPermission w userId toolName now1 query now2 = Returned (w, False)
       \<and> cached_decision w (cacheKey userId toolName) now3 = None
       \<and> (\<exists>w'. checkToolPermission w userId toolName now3 Answers now4
                 = Returned (w', row_allows (tool_permissions w (userId, toolName))))"
proof -
  have 1: "checkToolPermission w userId toolName now1 query now2 = Returned (w, False)"
    using assms(1,2)
    by (cases query) (simp_all add: checkToolPermission_def checkToolPermission_try_def)
  have 2: "cached_decision w (cacheKey userId toolName) now3 = None"
    using assms(2,3) by (rule cached_decision_later)
  then have 3: "\<exists>w'. checkToolPermission w userId toolName now3 Answers now4
                 = Returned (w', row_allows (tool_permissions w (userId, toolName)))"
    by (simp add: checkToolPermission_def checkToolPermission_try_def Let_def)
  from 1 2 3 show ?thesis by blast
qed

theorem failed_check_leaves_cache_witness:
  "AnswersError \<noteq> Answers \<and> cached_decision cached_false_world (cacheKey 42 [120]) 70000 = None
   \<and> (70000::int) \<le> 70500
   \<and> checkToolPermission cached_false_world 42 [120] 70000 AnswersError 70100 = Returned (cached_false_world, False)
   \<and> (\<exists>w'. checkToolPermission cached_false_world 42 [120] 70500 Answers 70600 = Returned (w', True))"
proof -
  have h: "AnswersError \<noteq> Answers" "cached_decision cached_false_world (cacheKey 42 [120]) 70000 = None"
    "(70000::int) \<le> 70500"
    by (simp_all add: cached_decision_def cached_false_world_def CACHE_TTL_MS_def)
  have "row_allows (tool_permissions cached_false_world (42, [120]))"
    by (simp add: row_allows_def cached_false_world_def allowed_row_def)
  with failed_check_leaves_cache [OF h, of 70100 70600] h show ?thesis by simp
qed




section \<open>Properties of the alert cooldown\<close>

lemma cooldown_inv_initial: "cooldown_inv initial_Monitoring"
  by (simp add: cooldown_inv_def initial_Monitoring_def audited_at_def logged_at_def)

lemma audited_at_suppressed:
  "in_cooldown st ty now \<Longrightarrow> triggerAlert st ty sev msg now = st"
  by (simp add: triggerAlert_def)

lemma fired_fields:
  assumes "\<not> in_cooldown st ty now"
  shows "alertCooldowns (triggerAlert st ty sev msg now) = (alertCooldowns st)(ty \<mapsto> now)"
    and "audited_at ty' (triggerAlert st ty sev msg now)
           = audited_at ty' st @ (if ty' = ty then [now] else [])"
    and "logged_at ty' (triggerAlert st ty sev msg now)
           = logged_at ty' st @ (if ty' = ty then [now] else [])"
    and "set (audited (triggerAlert st ty sev msg now))
           = set (audited st) \<union> {\<lparr>eventType = error_event, telegramUserId = None,
                  audit_alertType = ty, audit_message = msg, severity = sev,
                  audit_at = now\<rparr>}"
  using assms by (auto simp add: triggerAlert_def audited_at_def logged_at_def)

lemma triggerAlert_inv:
  assumes inv: "cooldown_inv st" and nz: "now \<noteq> 0"
  shows "cooldown_inv (triggerAlert st ty sev msg now)"
proof (cases "in_cooldown st ty now")
  case True
  then show ?thesis using inv by (simp add: audited_at_suppressed)
next
  case False
  note f = fired_fields [OF False]
  have gap: "x + ALERT_COOLDOWN_MS \<le> now" if "x \<in> set (audited_at ty st)" for x
  proof -
    from inv that obtain c where c: "alertCooldowns st ty = Some c" "x \<le> c"
      unfolding cooldown_inv_def by blast
    with inv have "c \<noteq> 0" unfolding cooldown_inv_def by blast
    with False c have "c + ALERT_COOLDOWN_MS \<le> now"
      by (simp add: in_cooldown_def)
    with c show ?thesis by simp
  qed
  have pos: "0 \<le> ALERT_COOLDOWN_MS" by (simp add: ALERT_COOLDOWN_MS_def)
  have 1: "\<forall>ty' c. alertCooldowns (triggerAlert st ty sev msg now) ty' = Some c \<longrightarrow> c \<noteq> 0"
    using inv nz unfolding cooldown_inv_def f by auto
  have 2: "\<forall>ty'. sorted_wrt (\<lambda>x y. x + ALERT_COOLDOWN_MS \<le> y)
                  (audited_at ty' (triggerAlert st ty sev msg now))"
    using inv gap unfolding cooldown_inv_def f by (auto simp add: sorted_wrt_append)
  have 3: "\<forall>ty'. \<forall>x \<in> set (audited_at ty' (triggerAlert st ty sev msg now)).
             \<exists>c. alertCooldowns (triggerAlert st ty sev msg now) ty' = Some c \<and> x \<le> c"
  proof (intro allI ballI)
    fix ty' x assume x: "x \<in> set (audited_at ty' (triggerAlert st ty sev msg now))"
    show "\<exists>c. alertCooldowns (triggerAlert st ty sev msg now) ty' = Some c \<and> x \<le> c"
    proof (cases "ty' = ty")
      case True
      with x have "x = now \<or> x \<in> set (audited_at ty st)" unfolding f by auto
      then have "x \<le> now" using gap [of x] pos by linarith
      then show ?thesis using True unfolding f by simp
    next
      case False
      with x have "x \<in> set (audited_at ty' st)" unfolding f by simp
      with inv obtain c where "alertCooldowns st ty' = Some c \<and> x \<le> c"
        unfolding cooldown_inv_def by blast
      then show ?thesis using False unfolding f by simp
    qed
  qed
  have 4: "\<forall>ty'. logged_at ty' (triggerAlert st ty sev msg now)
                 = audited_at ty' (triggerAlert st ty sev msg now)"
    using inv unfolding cooldown_inv_def f by simp
  have 5: "\<forall>a \<in> set (audited (triggerAlert st ty sev msg now)). eventType a = error_event"
    using inv unfolding cooldown_inv_def f by auto
  from 1 2 3 4 5 show ?thesis unfolding cooldown_inv_def by blast
qed

lemma run_alerts_inv:
  assumes "cooldown_inv st" and "\<forall>c \<in> set calls. call_now c \<noteq> 0"
  shows "cooldown_inv (run_alerts st calls)"
  using assms
proof (induction st calls rule: run_alerts.induct)
  case (1 st)
  then show ?case by simp
next
  case (2 st ty sev msg now calls)
  then show ?case by (simp add: triggerAlert_inv)
qed

lemma gapped_in_window:
  assumes "sorted_wrt (\<lambda>x y. x + ALERT_COOLDOWN_MS \<le> y) xs"
  shows "in_window t xs \<le> 1"
  using assms
proof (induction xs)
  case Nil
  then show ?case by (simp add: in_window_def)
next
  case (Cons x xs)
  show ?case
  proof (cases "t \<le> x \<and> x < t + ALERT_COOLDOWN_MS")
    case True
    have "filter (\<lambda>y. t \<le> y \<and> y < t + ALERT_COOLDOWN_MS) xs = []"
      using Cons.prems True by (auto simp add: filter_empty_conv)
    with True show ?thesis by (simp add: in_window_def)
  next
    case False
    then have "in_window t (x # xs) = in_window t xs"
      unfolding in_window_def by auto
    with Cons show ?thesis by simp
  qed
qed

text \<open>
  C9. Start from the empty alert state and call \<open>triggerAlert\<close> any number of times,
  with any alert types, at clock readings other than 0. Then for every alert type and
  every window of one cooldown length (5 minutes, \<open>t \<le> x < t + 300000\<close>), at most one
  audit record of that type was written in the window; the log lines of the type are
  exactly as many, at the same readings; and every audit record is of type \<open>error\<close>.
\<close>

theorem alert_fires_once_per_cooldown:
  assumes "\<forall>c \<in> set calls. call_now c \<noteq> 0"
  shows "in_window t (audited_at alertType (run_alerts initial_Monitoring calls)) \<le> 1
       \<and> logged_at alertType (run_alerts initial_Monitoring calls)
           = audited_at alertType (run_alerts initial_Monitoring calls)
       \<and> list_all (\<lambda>a. eventType a = error_event)
            (audited (run_alerts initial_Monitoring calls))"
proof -
  let ?st = "run_alerts initial_Monitoring calls"
  have inv: "cooldown_inv ?st"
    using cooldown_inv_initial assms by (rule run_alerts_inv)
  then have "sorted_wrt (\<lambda>x y. x + ALERT_COOLDOWN_MS \<le> y) (audited_at alertType ?st)"
    unfolding cooldown_inv_def by blast
  then have 1: "in_window t (audited_at alertType ?st) \<le> 1"
    by (rule gapped_in_window)
  have 2: "logged_at alertType ?st = audited_at alertType ?st"
    using inv unfolding cooldown_inv_def by blast
  have 3: "list_all (\<lambda>a. eventType a = error_event) (audited ?st)"
    using inv unfolding cooldown_inv_def list_all_iff by blast
  from 1 2 3 show ?thesis by blast
qed

theorem alert_fires_once_per_cooldown_witness:
  "list_all (\<lambda>c. call_now c \<noteq> 0) breach_calls
   \<and> audited_at ''high_error_rate'' (run_alerts initial_Monitoring breach_calls) = [1000000]
   \<and> logged_at ''high_error_rate'' (run_alerts initial_Monitoring breach_calls) = [1000000]
   \<and> in_window 1000000 (audited_at ''high_error_rate'' (run_alerts initial_Monitoring breach_calls)) \<le> 1"
proof -
  have h: "\<forall>c \<in> set breach_calls. call_now c \<noteq> 0"
    by (simp add: breach_calls_def)
  have e: "audited_at ''high_error_rate'' (run_alerts initial_Monitoring breach_calls) = [1000000]"
    by (simp add: breach_calls_def initial_Monitoring_def triggerAlert_def in_cooldown_def
        ALERT_COOLDOWN_MS_def audited_at_def)
  from alert_fires_once_per_cooldown [OF h, of 1000000 "''high_error_rate''"] h e
  show ?thesis by (simp add: list_all_iff)
qed

section \<open>Properties of the input validation\<close>

lemma bm: "backtick_message = [96, 114, 109, 32, 45, 114, 102, 32, 47, 96]"
  by (simp add: backtick_message_def js_def)

lemma bm_facts:
  "list_ex (\<lambda>char. char \<in> set backtick_message) DANGEROUS_CHARS = False"
  "length backtick_message = 10"
  "trim backtick_message \<noteq> []"
  by (simp_all add: bm DANGEROUS_CHARS_def trim_def is_space_def)

lemma cmd_first: "some_global COMMAND_INJECTION_PATTERNS initial_lastIndexes backtick_message
   = (True, [10, 0, 0, 0, 0, 0, 0, 0])"
  by (simp add: bm COMMAND_INJECTION_PATTERNS_def initial_lastIndexes_def test_global_def regex_exec_def lit_def)

lemma cmd_second: "some_global COMMAND_INJECTION_PATTERNS [10, 0, 0, 0, 0, 0, 0, 0] backtick_message
   = (False, [0, 0, 0, 0, 0, 0, 0, 0])"
  by (simp add: bm COMMAND_INJECTION_PATTERNS_def test_global_def regex_exec_def lit_def is_space_def is_letter_def)

lemma prompt_none: "list_ex (\<lambda>pattern. test pattern backtick_message) PROMPT_INJECTION_PATTERNS = False"
  by (simp add: bm PROMPT_INJECTION_PATTERNS_def test_def regex_exec_def liti_def both_cases_def one_or_more_def is_space_def)

lemma first_call:
  "validateUserInput initial_lastIndexes backtick_message 4000
     = ([10, 0, 0, 0, 0, 0, 0, 0],
        \<lparr>isValid = False, sanitized = trim backtick_message,
          violations = [js ''Contains potential command injection patterns'']\<rparr>)"
  by (simp add: validateUserInput_def Let_def bm_facts cmd_first prompt_none)

lemma second_call:
  "validateUserInput [10, 0, 0, 0, 0, 0, 0, 0] backtick_message 4000
     = ([0, 0, 0, 0, 0, 0, 0, 0],
        \<lparr>isValid = True, sanitized = trim backtick_message, violations = []\<rparr>)"
  by (simp add: validateUserInput_def Let_def bm_facts cmd_second prompt_none)

text \<open>
  C7. The claim is that two calls of \<open>validateUserInput\<close> with the same arguments
  return the same result whatever was validated before. The command patterns carry the
  flag \<open>g\<close>, so \<open>test\<close> leaves the end of a match in \<open>lastIndex\<close> and the next call
  searches from there. Validating the message \<open>`rm -rf /`\<close> twice in a row, from the
  state in which the module is loaded, rejects it the first time and accepts it the
  second time.
\<close>

theorem validation_depends_on_history:
  "isValid (snd (validateUserInput initial_lastIndexes backtick_message 4000)) = False
   \<and> isValid (snd (validateUserInput
        (fst (validateUserInput initial_lastIndexes backtick_message 4000))
        backtick_message 4000)) = True"
  by (simp add: first_call second_call)

lemma dropWhile_rev_dropWhile:
  "dropWhile P (rev (dropWhile P (rev xs))) = rev (dropWhile P (rev xs))" if "xs = [] \<or> \<not> P (hd xs)"
proof (cases "dropWhile P (rev xs) = []")
  case True
  show ?thesis unfolding True by simp
next
  case False
  then have ne: "xs \<noteq> []" by auto
  with that have h: "\<not> P (hd xs)" by simp
  have "hd (rev (dropWhile P (rev xs))) = last (dropWhile P (rev xs))"
    using False by (simp add: hd_rev)
  also have "\<dots> = last (rev xs)"
    using False last_appendR [of "dropWhile P (rev xs)" "takeWhile P (rev xs)"] by simp
  also have "\<dots> = hd xs" using ne by (simp add: last_rev)
  finally have "\<not> P (hd (rev (dropWhile P (rev xs))))" using h by simp
  then show ?thesis using False by (cases "rev (dropWhile P (rev xs))") auto
qed

lemma trim_idem: "trim (trim s) = trim s"
proof -
  let ?t = "dropWhile is_space s"
  have "?t = [] \<or> \<not> is_space (hd ?t)"
    by (metis hd_dropWhile)
  then have "dropWhile is_space (rev (dropWhile is_space (rev ?t))) = rev (dropWhile is_space (rev ?t))"
    by (rule dropWhile_rev_dropWhile)
  then show ?thesis by (simp add: trim_def)
qed

lemma set_trim: "set (trim s) \<subseteq> set s"
proof -
  have "set (trim s) \<subseteq> set (dropWhile is_space s)"
    unfolding trim_def using set_dropWhileD by fastforce
  then show ?thesis using set_dropWhileD by fastforce
qed

lemma length_trim: "length (trim s) \<le> length s"
proof -
  have "length (trim s) \<le> length (dropWhile is_space s)"
    unfolding trim_def by (simp add: length_dropWhile_le le_trans[OF length_dropWhile_le])
  also have "\<dots> \<le> length s" by (rule length_dropWhile_le)
  finally show ?thesis .
qed

lemma clean_input_sanitized:
  assumes "\<not> list_ex (\<lambda>char. char \<in> set message) DANGEROUS_CHARS"
    and "int (length message) \<le> maxLength"
  shows "sanitized (snd (validateUserInput L message maxLength)) = trim message"
  using assms by (simp add: validateUserInput_def Let_def split_beta)

lemma no_violations_clean:
  assumes "violations (snd (validateUserInput L message maxLength)) = []"
  shows "\<not> list_ex (\<lambda>char. char \<in> set message) DANGEROUS_CHARS"
    and "int (length message) \<le> maxLength"
  using assms by (simp_all add: validateUserInput_def Let_def split_beta split: if_splits)

text \<open>
  C8. If validating a message, in any state of the patterns, records no violation, then
  validating the sanitized text of that result with the same length limit, again in any
  state of the patterns, returns that sanitized text unchanged.
\<close>

theorem sanitized_fixed_point:
  assumes "violations (snd (validateUserInput L message maxLength)) = []"
  shows "sanitized (snd (validateUserInput L'
           (sanitized (snd (validateUserInput L message maxLength))) maxLength))
         = sanitized (snd (validateUserInput L message maxLength))"
proof -
  note clean = no_violations_clean [OF assms]
  have s: "sanitized (snd (validateUserInput L message maxLength)) = trim message"
    using clean by (rule clean_input_sanitized)
  have "\<not> list_ex (\<lambda>char. char \<in> set (trim message)) DANGEROUS_CHARS"
    using clean(1) set_trim [of message] by (auto simp add: list_ex_iff)
  moreover have "int (length (trim message)) \<le> maxLength"
    using clean(2) length_trim [of message] by simp
  ultimately have "sanitized (snd (validateUserInput L' (trim message) maxLength))
                     = trim (trim message)"
    by (rule clean_input_sanitized)
  then show ?thesis by (simp add: s trim_idem)
qed

lemma hello_facts:
  "hello_message = [32, 104, 101, 108, 108, 111, 32, 32]"
  "trim hello_message = [104, 101, 108, 108, 111]"
  by (simp_all add: hello_message_def js_def trim_def is_space_def)

lemma hello_no_violations:
  "violations (snd (validateUserInput initial_lastIndexes hello_message 4000)) = []"
proof -
  have 1: "some_global COMMAND_INJECTION_PATTERNS initial_lastIndexes hello_message
             = (False, [0, 0, 0, 0, 0, 0, 0, 0])"
    by (simp add: hello_facts(1) COMMAND_INJECTION_PATTERNS_def initial_lastIndexes_def
        test_global_def regex_exec_def lit_def is_space_def is_letter_def)
  have 2: "list_ex (\<lambda>pattern. test pattern hello_message) PROMPT_INJECTION_PATTERNS = False"
    by (simp add: hello_facts(1) PROMPT_INJECTION_PATTERNS_def test_def regex_exec_def
        liti_def both_cases_def one_or_more_def is_space_def)
  have 3: "list_ex (\<lambda>char. char \<in> set hello_message) DANGEROUS_CHARS = False"
    "length hello_message = 8"
    by (simp_all add: hello_facts(1) DANGEROUS_CHARS_def)
  show ?thesis
    by (simp add: validateUserInput_def Let_def 1 2 3 hello_facts(2))
qed

theorem sanitized_fixed_point_witness:
  "violations (snd (validateUserInput initial_lastIndexes hello_message 4000)) = []
   \<and> sanitized (snd (validateUserInput [10, 0, 0, 0, 0, 0, 0, 0]
        (sanitized (snd (validateUserInput initial_lastIndexes hello_message 4000))) 4000))
      = sanitized (snd (validateUserInput initial_lastIndexes hello_message 4000))"
  using sanitized_fixed_point [OF hello_no_violations] hello_no_violations by blast

end
